theory Spec2Isabelle
  imports Complex_Main
begin

section \<open>Values, errors and Python built-ins\<close>

text \<open>
  The orchestrator (\<^verbatim>\<open>orchestrator/main.py\<close>) handles values produced by
  \<^verbatim>\<open>json.loads\<close>: a parsed document is a \<open>json\<close> value. A Python dict is an
  association list that holds one binding per key; \<open>None\<close> is \<open>JNull\<close>.
  A Python string is modelled by its UTF-8 encoding, the encoding the report is written
  in: a \<open>string\<close> here is that sequence of bytes. A Python string that has no UTF-8
  encoding (one with a lone surrogate) is outside the model.
\<close>

datatype json =
    JNull
  | JBool bool
  | JInt int
  | JFloat real
  | JStr string
  | JArr "json list"
  | JObj "(string \<times> json) list"

text \<open>The exceptions the orchestrator can meet; an uncaught one ends the process.\<close>

datatype py_error =
    JSONDecodeError
  | AttributeError
  | TypeError
  | RequestException
  | FileNotFoundError

text \<open>
  A text handed to \<^verbatim>\<open>json.loads\<close> (a file's content, a subprocess's output, an HTTP
  body) is modelled by what the parser makes of it: \<open>Parses j\<close> is a text that parses to
  \<open>j\<close>, \<open>Garbled\<close> one that the parser rejects.
\<close>

datatype raw = Parses json | Garbled

definition json_loads :: "raw \<Rightarrow> py_error + json" where
  "json_loads r = (case r of Parses j \<Rightarrow> Inr j | Garbled \<Rightarrow> Inl JSONDecodeError)"

text \<open>\<^verbatim>\<open>d.get(k, default)\<close>: only a dict has the method.\<close>

definition json_get :: "json \<Rightarrow> string \<Rightarrow> json \<Rightarrow> py_error + json" where
  "json_get d k dflt =
     (case d of
        JObj kvs \<Rightarrow> (case map_of kvs k of Some v \<Rightarrow> Inr v | None \<Rightarrow> Inr dflt)
      | _ \<Rightarrow> Inl AttributeError)"

text \<open>
  The characters of a string: in UTF-8 every byte that is not a continuation byte
  (\<^verbatim>\<open>0x80\<close> to \<^verbatim>\<open>0xBF\<close>) starts a character, which the continuation bytes after it
  complete. Python's string operations work on these characters.
\<close>

definition is_cont :: "char \<Rightarrow> bool" where
  "is_cont c = (128 \<le> (of_char c :: nat) \<and> (of_char c :: nat) < 192)"

fun utf8_chars :: "string \<Rightarrow> string list" where
  "utf8_chars [] = []"
| "utf8_chars [c] = [[c]]"
| "utf8_chars (c # d # cs) =
     (if is_cont d
      then (case utf8_chars (d # cs) of ch # chs \<Rightarrow> (c # ch) # chs | [] \<Rightarrow> [[c]])
      else [c] # utf8_chars (d # cs))"

text \<open>
  Iterating a value (\<^verbatim>\<open>for x in v\<close>, \<^verbatim>\<open>list += v\<close>, \<^verbatim>\<open>list.extend(v)\<close>); a string
  yields its characters.
\<close>

definition py_iter :: "json \<Rightarrow> py_error + json list" where
  "py_iter v =
     (case v of
        JArr xs \<Rightarrow> Inr xs
      | JObj kvs \<Rightarrow> Inr (map (\<lambda>kv. JStr (fst kv)) kvs)
      | JStr s \<Rightarrow> Inr (map JStr (utf8_chars s))
      | _ \<Rightarrow> Inl TypeError)"

fun is_infix :: "string \<Rightarrow> string \<Rightarrow> bool" where
  "is_infix p [] = (p = [])"
| "is_infix p (c # cs) = (take (length p) (c # cs) = p \<or> is_infix p cs)"

text \<open>\<^verbatim>\<open>k in v\<close> for a string \<open>k\<close>.\<close>

definition py_contains :: "string \<Rightarrow> json \<Rightarrow> py_error + bool" where
  "py_contains k v =
     (case v of
        JObj kvs \<Rightarrow> Inr (map_of kvs k \<noteq> None)
      | JArr xs \<Rightarrow> Inr (JStr k \<in> set xs)
      | JStr s \<Rightarrow> Inr (is_infix k s)
      | _ \<Rightarrow> Inl TypeError)"

text \<open>\<^verbatim>\<open>v[k]\<close> for a string \<open>k\<close>, evaluated after \<^verbatim>\<open>k in v\<close> held.\<close>

definition py_getitem :: "json \<Rightarrow> string \<Rightarrow> py_error + json" where
  "py_getitem v k =
     (case v of
        JObj kvs \<Rightarrow> (case map_of kvs k of Some x \<Rightarrow> Inr x | None \<Rightarrow> Inl TypeError)
      | _ \<Rightarrow> Inl TypeError)"

text \<open>
  \<^verbatim>\<open>str.strip()\<close> removes the leading and the trailing white-space characters, those for
  which \<^verbatim>\<open>str.isspace()\<close> holds: U+0009 to U+000D, U+001C to U+0020, U+0085, U+00A0,
  U+1680, U+2000 to U+200A, U+2028, U+2029, U+202F, U+205F and U+3000. \<open>space_codes\<close>
  lists their UTF-8 encodings.
\<close>

definition space_codes :: "string list" where
  "space_codes =
     [[CHR 0x09], [CHR 0x0A], [CHR 0x0B], [CHR 0x0C], [CHR 0x0D],
      [CHR 0x1C], [CHR 0x1D], [CHR 0x1E], [CHR 0x1F], [CHR 0x20],
      [CHR 0xC2, CHR 0x85], [CHR 0xC2, CHR 0xA0], [CHR 0xE1, CHR 0x9A, CHR 0x80],
      [CHR 0xE2, CHR 0x80, CHR 0x80], [CHR 0xE2, CHR 0x80, CHR 0x81],
      [CHR 0xE2, CHR 0x80, CHR 0x82], [CHR 0xE2, CHR 0x80, CHR 0x83],
      [CHR 0xE2, CHR 0x80, CHR 0x84], [CHR 0xE2, CHR 0x80, CHR 0x85],
      [CHR 0xE2, CHR 0x80, CHR 0x86], [CHR 0xE2, CHR 0x80, CHR 0x87],
      [CHR 0xE2, CHR 0x80, CHR 0x88], [CHR 0xE2, CHR 0x80, CHR 0x89],
      [CHR 0xE2, CHR 0x80, CHR 0x8A], [CHR 0xE2, CHR 0x80, CHR 0xA8],
      [CHR 0xE2, CHR 0x80, CHR 0xA9], [CHR 0xE2, CHR 0x80, CHR 0xAF],
      [CHR 0xE2, CHR 0x81, CHR 0x9F], [CHR 0xE3, CHR 0x80, CHR 0x80]]"

definition is_space :: "string \<Rightarrow> bool" where
  "is_space ch = (ch \<in> set space_codes)"

definition strip_chars :: "string list \<Rightarrow> string list" where
  "strip_chars chs = rev (dropWhile is_space (rev (dropWhile is_space chs)))"

definition strip :: "string \<Rightarrow> string" where
  "strip s = concat (strip_chars (utf8_chars s))"

text \<open>\<^verbatim>\<open>v.strip()\<close> on a value: only a string has the method.\<close>

definition py_strip :: "json \<Rightarrow> py_error + string" where
  "py_strip v = (case v of JStr s \<Rightarrow> Inr (strip s) | _ \<Rightarrow> Inl AttributeError)"

definition endswith :: "string \<Rightarrow> string \<Rightarrow> bool" where
  "endswith s suf = (length suf \<le> length s \<and> drop (length s - length suf) s = suf)"

definition startswith :: "string \<Rightarrow> string \<Rightarrow> bool" where
  "startswith s pre = (take (length pre) s = pre)"

text \<open>Decimal rendering of an integer, as \<^verbatim>\<open>str\<close> and an f-string give it.\<close>

definition digit :: "nat \<Rightarrow> char" where
  "digit d = ''0123456789'' ! d"

fun show_nat :: "nat \<Rightarrow> string" where
  "show_nat n = (if n < 10 then [digit n] else show_nat (n div 10) @ [digit (n mod 10)])"

declare show_nat.simps [simp del]

definition show_int :: "int \<Rightarrow> string" where
  "show_int i = (if i < 0 then CHR ''-'' # show_nat (nat (- i)) else show_nat (nat i))"

text \<open>
  \<^verbatim>\<open>str(v)\<close>, which an f-string applies to a field. The text of a float, a list or a dict
  is Python's \<^verbatim>\<open>repr\<close> of it, taken as the parameter \<open>repr_of\<close>.
\<close>

definition py_str :: "(json \<Rightarrow> string) \<Rightarrow> json \<Rightarrow> string" where
  "py_str repr_of v =
     (case v of
        JNull \<Rightarrow> ''None''
      | JBool b \<Rightarrow> (if b then ''True'' else ''False'')
      | JInt i \<Rightarrow> show_int i
      | JStr s \<Rightarrow> s
      | _ \<Rightarrow> repr_of v)"

abbreviation NL :: string where
  "NL \<equiv> [CHR 0x0A]"


section \<open>The run's state and the model service\<close>

text \<open>
  The state a run reads and writes: the wall clock (\<^verbatim>\<open>time.time()\<close>), the report
  \<^verbatim>\<open>reports/review.md\<close> (\<open>None\<close> while the file is absent), the patch files and
  whether their directory exists, the module-level \<^verbatim>\<open>ai_usage_log\<close>, and two traces
  of the outside world: the requests posted to the model service and the analyzer
  subprocesses started. Console output is not modelled.
\<close>

datatype call_kind = Review | Auto_fix | Effort | Doc_findings | Doc_updates

record world =
  now :: real
  report :: "string option"
  patches_dir :: bool
  patches :: "(string \<times> string) list"
  ai_usage_log :: "(string \<times> real) list"
  sent :: "call_kind list"
  spawned :: "(string \<times> string) list"

text \<open>
  What \<^verbatim>\<open>requests.post\<close> meets: the call raises (connection refused, timeout), or a
  response arrives with a status code and a body. The reply and the time it takes are
  inputs of the model: they stand for whatever the service does with the prompt, so
  the prompt's text is not modelled.
\<close>

datatype http_result = Transport_failure | Response nat raw

record reply =
  latency :: real
  outcome :: http_result

record finding =
  tool :: string
  filename :: json
  message :: json
  line :: json

definition track_ai_usage :: "string \<Rightarrow> real \<Rightarrow> world \<Rightarrow> world" where
  "track_ai_usage action_name start_time w =
     w\<lparr>ai_usage_log := ai_usage_log w @ [(action_name, now w - start_time)]\<rparr>"

definition requests_post :: "call_kind \<Rightarrow> reply \<Rightarrow> world \<Rightarrow> (py_error + nat \<times> raw) \<times> world" where
  "requests_post k r w =
     (let w' = w\<lparr>now := now w + latency r, sent := sent w @ [k]\<rparr>
      in case outcome r of
           Transport_failure \<Rightarrow> (Inl RequestException, w')
         | Response code body \<Rightarrow> (Inr (code, body), w'))"

text \<open>\<^verbatim>\<open>data.get("message", {}).get("content", "").strip()\<close>\<close>

definition message_content :: "json \<Rightarrow> py_error + string" where
  "message_content data =
     (case json_get data ''message'' (JObj []) of
        Inl e \<Rightarrow> Inl e
      | Inr m \<Rightarrow> (case json_get m ''content'' (JStr []) of
                   Inl e \<Rightarrow> Inl e
                 | Inr c \<Rightarrow> py_strip c))"

text \<open>\<^verbatim>\<open>response.json()\<close> followed by the extraction of the content.\<close>

definition reply_text :: "raw \<Rightarrow> py_error + string" where
  "reply_text body =
     (case json_loads body of Inl e \<Rightarrow> Inl e | Inr data \<Rightarrow> message_content data)"

text \<open>
  Appending to the report (\<^verbatim>\<open>open("reports/review.md", "a")\<close>) creates it if absent.
  Writes to the report are taken to succeed: \<^verbatim>\<open>main\<close> creates the directory in
  \<^verbatim>\<open>save_report\<close> before the first append.
\<close>

definition append_report :: "string \<Rightarrow> world \<Rightarrow> world" where
  "append_report s w =
     w\<lparr>report := Some ((case report w of None \<Rightarrow> [] | Some old \<Rightarrow> old) @ s)\<rparr>"

text \<open>The narrative review: the request is not guarded by a \<^verbatim>\<open>try\<close>.\<close>

definition analyze_with_llm :: "finding list \<Rightarrow> reply \<Rightarrow> world \<Rightarrow> (py_error + string) \<times> world" where
  "analyze_with_llm findings r w =
     (let start_time = now w
      in case requests_post Review r w of
           (Inl e, w1) \<Rightarrow> (Inl e, w1)
         | (Inr (code, body), w1) \<Rightarrow>
             if code \<noteq> 200 then (Inr ''Error: LLM could not generate a response.'', w1)
             else (case json_loads body of
                     Inl e \<Rightarrow> (Inl e, w1)
                   | Inr data \<Rightarrow>
                       (let w2 = track_ai_usage ''analyze_with_llm'' start_time w1
                        in case message_content data of
                             Inl e \<Rightarrow> (Inl e, w2)
                           | Inr s \<Rightarrow> (Inr s, w2))))"

text \<open>
  The patch is written to \<^verbatim>\<open>patches/auto_fix_<int(time.time())>.diff\<close>, where
  \<^verbatim>\<open>int\<close> truncates towards zero; the write raises when the directory is missing. Every
  exception inside the \<^verbatim>\<open>try\<close> is caught.
\<close>

definition py_int :: "real \<Rightarrow> int" where
  "py_int x = (if x < 0 then \<lceil>x\<rceil> else \<lfloor>x\<rfloor>)"

definition patch_name :: "world \<Rightarrow> string" where
  "patch_name w = ''patches/auto_fix_'' @ show_int (py_int (now w)) @ ''.diff''"

definition write_patch :: "string \<Rightarrow> world \<Rightarrow> (py_error + string) \<times> world" where
  "write_patch patch_text w =
     (if patches_dir w
      then (Inr (patch_name w),
            w\<lparr>patches := (patch_name w, patch_text) #
                           filter (\<lambda>p. fst p \<noteq> patch_name w) (patches w)\<rparr>)
      else (Inl FileNotFoundError, w))"

definition generate_auto_fix ::
  "finding list \<Rightarrow> reply \<Rightarrow> world \<Rightarrow> (py_error + string option) \<times> world" where
  "generate_auto_fix findings r w =
     (let start_time = now w
      in if findings = [] then (Inr None, w)
         else (case requests_post Auto_fix r w of
                 (Inl e, w1) \<Rightarrow> (Inr None, track_ai_usage ''generate_auto_fix'' start_time w1)
               | (Inr (code, body), w1) \<Rightarrow>
                   if code \<noteq> 200 then (Inr None, w1)
                   else (case reply_text body of
                           Inl e \<Rightarrow> (Inr None, track_ai_usage ''generate_auto_fix'' start_time w1)
                         | Inr patch_text \<Rightarrow>
                             (case write_patch patch_text w1 of
                                (Inl e, w2) \<Rightarrow>
                                  (Inr None, track_ai_usage ''generate_auto_fix'' start_time w2)
                              | (Inr patch_path, w2) \<Rightarrow> (Inr (Some patch_path), w2)))))"

definition estimate_effort :: "finding list \<Rightarrow> reply \<Rightarrow> world \<Rightarrow> (py_error + string) \<times> world" where
  "estimate_effort findings r w =
     (let start_time = now w
      in if findings = [] then (Inr ''No issues found, no effort required.'', w)
         else (case requests_post Effort r w of
                 (Inl e, w1) \<Rightarrow>
                   (Inr ''Error while estimating effort.'',
                    track_ai_usage ''estimate_effort'' start_time w1)
               | (Inr (code, body), w1) \<Rightarrow>
                   if code \<noteq> 200
                   then (Inr ''Effort estimation unavailable (error from LLM).'', w1)
                   else (case reply_text body of
                           Inl e \<Rightarrow>
                             (Inr ''Error while estimating effort.'',
                              track_ai_usage ''estimate_effort'' start_time w1)
                         | Inr effort_text \<Rightarrow> (Inr effort_text, w1))))"

text \<open>
  The two documentation calls: the status check returns from inside the \<^verbatim>\<open>try\<close>, past
  the \<^verbatim>\<open>track_ai_usage\<close> that follows the \<^verbatim>\<open>try\<close> statement.
\<close>

definition document_findings :: "finding list \<Rightarrow> reply \<Rightarrow> world \<Rightarrow> (py_error + unit) \<times> world" where
  "document_findings findings r w =
     (let start_time = now w
      in if findings = [] then (Inr (), w)
         else (case requests_post Doc_findings r w of
                 (Inl e, w1) \<Rightarrow> (Inr (), track_ai_usage ''document_findings'' start_time w1)
               | (Inr (code, body), w1) \<Rightarrow>
                   if code \<noteq> 200 then (Inr (), w1)
                   else (case reply_text body of
                           Inl e \<Rightarrow> (Inr (), track_ai_usage ''document_findings'' start_time w1)
                         | Inr doc_text \<Rightarrow>
                             (Inr (),
                              track_ai_usage ''document_findings'' start_time
                                (append_report doc_text
                                  (append_report (''### Documentation for Findings'' @ NL)
                                    (append_report (NL @ NL @ ''---'' @ NL) w1)))))))"

definition doc_updates_heading :: string where
  "doc_updates_heading =
     ''### '' @ [CHR 0xC3, CHR 0xB0, CHR 0xC5, CHR 0xB8, CHR 0xC2, CHR 0xAA, CHR 0xC2, CHR 0xB6]
       @ '' Suggested Documentation Updates'' @ NL"

definition suggest_doc_updates :: "finding list \<Rightarrow> reply \<Rightarrow> world \<Rightarrow> (py_error + unit) \<times> world" where
  "suggest_doc_updates findings r w =
     (let start_time = now w
      in if findings = [] then (Inr (), w)
         else (case requests_post Doc_updates r w of
                 (Inl e, w1) \<Rightarrow> (Inr (), track_ai_usage ''suggest_doc_updates'' start_time w1)
               | (Inr (code, body), w1) \<Rightarrow>
                   if code \<noteq> 200 then (Inr (), w1)
                   else (case reply_text body of
                           Inl e \<Rightarrow> (Inr (), track_ai_usage ''suggest_doc_updates'' start_time w1)
                         | Inr doc_update_text \<Rightarrow>
                             (Inr (),
                              track_ai_usage ''suggest_doc_updates'' start_time
                                (append_report doc_update_text
                                  (append_report doc_updates_heading
                                    (append_report (NL @ NL @ ''---'' @ NL) w1)))))))"


section \<open>Rule store, file selection and analyzers\<close>

text \<open>\<open>None\<close> stands for an absent \<^verbatim>\<open>rules/custom_rules.json\<close>.\<close>

definition load_custom_rules :: "raw option \<Rightarrow> py_error + json" where
  "load_custom_rules rules_file =
     (case rules_file of Some content \<Rightarrow> json_loads content | None \<Rightarrow> Inr (JObj []))"

text \<open>
  One subprocess run: the time it takes and its standard output, \<open>None\<close> when
  \<^verbatim>\<open>subprocess.run\<close> itself raises (the executable is not installed).
\<close>

record proc_run =
  took :: real
  stdout :: "raw option"

text \<open>
  Everything a run reads from outside: the file system at start, the lines
  \<^verbatim>\<open>git diff --name-only HEAD\<close> prints, the Python files under \<^verbatim>\<open>sample\<close>, what the
  analyzers do for each selected file (they run in its directory), the service's reply to
  each of the five requests, and Python's rendering of floats and containers.
\<close>

record env =
  rules_file :: "raw option"
  path_exists :: "string \<Rightarrow> bool"
  git_diff :: "string list option"
  sample_files :: "string list"
  ruff_run :: "string \<Rightarrow> proc_run"
  bandit_run :: "string \<Rightarrow> proc_run"
  review_reply :: reply
  fix_reply :: reply
  effort_reply :: reply
  doc_reply :: reply
  update_reply :: reply
  repr_of :: "json \<Rightarrow> string"
  fmt_float :: "nat \<Rightarrow> real \<Rightarrow> string"

definition get_changed_files :: "string list option \<Rightarrow> string list" where
  "get_changed_files diff =
     (case diff of
        Some lines \<Rightarrow> map strip (filter (\<lambda>f. endswith f ''.py'') lines)
      | None \<Rightarrow> [])"

definition timed_section ::
  "(world \<Rightarrow> (py_error + 'a) \<times> world) \<Rightarrow> world \<Rightarrow> (py_error + 'a \<times> real) \<times> world" where
  "timed_section func w =
     (let start = now w
      in case func w of
           (Inl e, w') \<Rightarrow> (Inl e, w')
         | (Inr result, w') \<Rightarrow> (Inr (result, now w' - start), w'))"

definition run_command :: "string \<Rightarrow> string \<Rightarrow> proc_run \<Rightarrow> world \<Rightarrow> (py_error + raw) \<times> world" where
  "run_command exe file p w =
     (let w' = w\<lparr>now := now w + took p, spawned := spawned w @ [(exe, file)]\<rparr>
      in case stdout p of None \<Rightarrow> (Inl FileNotFoundError, w') | Some out \<Rightarrow> (Inr out, w'))"

definition run_ruff :: "string \<Rightarrow> proc_run \<Rightarrow> world \<Rightarrow> (py_error + json) \<times> world" where
  "run_ruff file p w =
     (case run_command ''ruff'' file p w of
        (Inl e, w') \<Rightarrow> (Inl e, w')
      | (Inr output, w') \<Rightarrow>
          (Inr (case json_loads output of Inl e \<Rightarrow> JArr [] | Inr j \<Rightarrow> j), w'))"

definition run_bandit :: "string \<Rightarrow> proc_run \<Rightarrow> world \<Rightarrow> (py_error + json) \<times> world" where
  "run_bandit file p w =
     (case run_command ''bandit'' file p w of
        (Inl e, w') \<Rightarrow> (Inl e, w')
      | (Inr output, w') \<Rightarrow>
          (Inr (case json_loads output of Inl e \<Rightarrow> JObj [] | Inr j \<Rightarrow> j), w'))"

text \<open>
  \<^verbatim>\<open>if "results" in bandit_output: ....extend(bandit_output["results"])\<close>: the items
  one Bandit run adds.
\<close>

definition bandit_results :: "json \<Rightarrow> py_error + json list" where
  "bandit_results bandit_output =
     (case py_contains ''results'' bandit_output of
        Inl e \<Rightarrow> Inl e
      | Inr False \<Rightarrow> Inr []
      | Inr True \<Rightarrow> (case py_getitem bandit_output ''results'' of
                      Inl e \<Rightarrow> Inl e
                    | Inr v \<Rightarrow> py_iter v))"

text \<open>
  Step 2 of \<^verbatim>\<open>main\<close>: the loop over the selected files, carrying
  \<^verbatim>\<open>all_ruff_results\<close>, \<^verbatim>\<open>all_bandit_results["results"]\<close> and \<^verbatim>\<open>performance_stats\<close>.
\<close>

fun analyze_files ::
  "env \<Rightarrow> string list \<Rightarrow> json list \<times> json list \<times> (string \<times> real) list \<Rightarrow> world
     \<Rightarrow> (py_error + json list \<times> json list \<times> (string \<times> real) list) \<times> world" where
  "analyze_files e [] acc w = (Inr acc, w)"
| "analyze_files e (file_path # rest) (all_ruff, all_bandit, stats) w =
     (case timed_section (run_ruff file_path (ruff_run e file_path)) w of
        (Inl err, w1) \<Rightarrow> (Inl err, w1)
      | (Inr (ruff_output, ruff_time), w1) \<Rightarrow>
          (case py_iter ruff_output of
             Inl err \<Rightarrow> (Inl err, w1)
           | Inr items \<Rightarrow>
               (case timed_section (run_bandit file_path (bandit_run e file_path)) w1 of
                  (Inl err, w2) \<Rightarrow> (Inl err, w2)
                | (Inr (bandit_output, bandit_time), w2) \<Rightarrow>
                    (case bandit_results bandit_output of
                       Inl err \<Rightarrow> (Inl err, w2)
                     | Inr results \<Rightarrow>
                         analyze_files e rest
                           (all_ruff @ items, all_bandit @ results,
                            stats @ [(''Ruff'', ruff_time), (''Bandit'', bandit_time)]) w2))))"

section \<open>Gathering the findings\<close>

text \<open>
  Step 3 of \<^verbatim>\<open>main\<close>. Each loop appends to the one list \<^verbatim>\<open>findings\<close>, which the
  functions below carry as their last argument. A finding is the four-key dict the loops
  build; every key is always present, so a later \<^verbatim>\<open>f.get(key, default)\<close> reads the field.
\<close>

definition ruff_finding :: "json \<Rightarrow> json \<Rightarrow> py_error + finding" where
  "ruff_finding item msg =
     (case json_get item ''filename'' JNull of
        Inl e \<Rightarrow> Inl e
      | Inr fname \<Rightarrow>
          (case json_get msg ''message'' JNull of
             Inl e \<Rightarrow> Inl e
           | Inr text \<Rightarrow>
               (case json_get msg ''location'' (JObj []) of
                  Inl e \<Rightarrow> Inl e
                | Inr loc \<Rightarrow>
                    (case json_get loc ''row'' JNull of
                       Inl e \<Rightarrow> Inl e
                     | Inr row \<Rightarrow>
                         Inr \<lparr>tool = ''ruff'', filename = fname, message = text, line = row\<rparr>))))"

fun ruff_messages :: "json \<Rightarrow> json list \<Rightarrow> finding list \<Rightarrow> py_error + finding list" where
  "ruff_messages item [] findings = Inr findings"
| "ruff_messages item (msg # msgs) findings =
     (case ruff_finding item msg of
        Inl e \<Rightarrow> Inl e
      | Inr f \<Rightarrow> ruff_messages item msgs (findings @ [f]))"

fun ruff_items :: "json list \<Rightarrow> finding list \<Rightarrow> py_error + finding list" where
  "ruff_items [] findings = Inr findings"
| "ruff_items (item # items) findings =
     (case json_get item ''messages'' (JArr []) of
        Inl e \<Rightarrow> Inl e
      | Inr v \<Rightarrow>
          (case py_iter v of
             Inl e \<Rightarrow> Inl e
           | Inr msgs \<Rightarrow>
               (case ruff_messages item msgs findings of
                  Inl e \<Rightarrow> Inl e
                | Inr findings' \<Rightarrow> ruff_items items findings')))"

definition bandit_finding :: "json \<Rightarrow> py_error + finding" where
  "bandit_finding issue =
     (case json_get issue ''filename'' JNull of
        Inl e \<Rightarrow> Inl e
      | Inr fname \<Rightarrow>
          (case json_get issue ''issue_text'' JNull of
             Inl e \<Rightarrow> Inl e
           | Inr text \<Rightarrow>
               (case json_get issue ''line_number'' JNull of
                  Inl e \<Rightarrow> Inl e
                | Inr n \<Rightarrow>
                    Inr \<lparr>tool = ''bandit'', filename = fname, message = text, line = n\<rparr>)))"

fun bandit_issues :: "json list \<Rightarrow> finding list \<Rightarrow> py_error + finding list" where
  "bandit_issues [] findings = Inr findings"
| "bandit_issues (issue # issues) findings =
     (case bandit_finding issue of
        Inl e \<Rightarrow> Inl e
      | Inr f \<Rightarrow> bandit_issues issues (findings @ [f]))"

definition required_dirs :: "string list" where
  "required_dirs = [''orchestrator'', ''sample'', ''reports'']"

fun join :: "string \<Rightarrow> string list \<Rightarrow> string" where
  "join sep [] = []"
| "join sep [x] = x"
| "join sep (x # y # ys) = x @ sep @ join sep (y # ys)"

definition check_architecture_structure :: "(string \<Rightarrow> bool) \<Rightarrow> string list" where
  "check_architecture_structure exists_path =
     (let missing = filter (\<lambda>d. \<not> exists_path d) required_dirs
      in if missing \<noteq> []
         then [''Missing expected module directories: '' @ join '', '' missing]
         else [''Project structure follows modular architecture.''])"

definition architecture_finding :: "string \<Rightarrow> finding" where
  "architecture_finding note =
     \<lparr>tool = ''architecture'', filename = JStr ''project'', message = JStr note, line = JInt 0\<rparr>"

fun architecture_notes :: "string list \<Rightarrow> finding list \<Rightarrow> finding list" where
  "architecture_notes [] findings = findings"
| "architecture_notes (note # notes) findings =
     architecture_notes notes (findings @ [architecture_finding note])"

definition gather_findings ::
  "json list \<Rightarrow> json list \<Rightarrow> (string \<Rightarrow> bool) \<Rightarrow> py_error + finding list" where
  "gather_findings all_ruff all_bandit exists_path =
     (case ruff_items all_ruff [] of
        Inl e \<Rightarrow> Inl e
      | Inr findings1 \<Rightarrow>
          (case bandit_issues all_bandit findings1 of
             Inl e \<Rightarrow> Inl e
           | Inr findings2 \<Rightarrow>
               Inr (architecture_notes (check_architecture_structure exists_path) findings2)))"


section \<open>The report\<close>

text \<open>The separator the source puts between the location and the message, as UTF-8.\<close>

definition dash :: string where
  "dash = [CHR 0xC3, CHR 0xA2, CHR 0xE2, CHR 0x82, CHR 0xAC, CHR 0xE2, CHR 0x80, CHR 0x9C]"

definition checkboxes :: string where
  "checkboxes =
     ''   - [ ] Fixed'' @ NL @
     ''   - [ ] Not applicable'' @ NL @
     ''   - **Comment:** _Write your reply here..._'' @ NL @ NL"

definition comment_entry :: "(json \<Rightarrow> string) \<Rightarrow> nat \<Rightarrow> finding \<Rightarrow> py_error + string" where
  "comment_entry rp i f =
     (case py_strip (message f) of
        Inl e \<Rightarrow> Inl e
      | Inr msg \<Rightarrow>
          Inr (show_nat i @ ''. **'' @ py_str rp (filename f) @ '', line '' @ py_str rp (line f)
               @ ''** '' @ dash @ '' '' @ msg @ NL @ checkboxes))"

fun comment_entries ::
  "(json \<Rightarrow> string) \<Rightarrow> nat \<Rightarrow> finding list \<Rightarrow> string \<Rightarrow> py_error + string" where
  "comment_entries rp i [] section = Inr section"
| "comment_entries rp i (f # fs) section =
     (case comment_entry rp i f of
        Inl e \<Rightarrow> Inl e
      | Inr entry \<Rightarrow> comment_entries rp (Suc i) fs (section @ entry))"

definition responses_heading :: string where
  "responses_heading = NL @ NL @ ''---'' @ NL @ ''### Developer Responses'' @ NL"

definition add_comment_section ::
  "(json \<Rightarrow> string) \<Rightarrow> finding list \<Rightarrow> world \<Rightarrow> (py_error + unit) \<times> world" where
  "add_comment_section rp findings w =
     (if findings = [] then (Inr (), w)
      else (case comment_entries rp 1 findings responses_heading of
              Inl e \<Rightarrow> (Inl e, w)
            | Inr section \<Rightarrow> (Inr (), append_report section w)))"

definition save_report :: "string \<Rightarrow> world \<Rightarrow> (py_error + unit) \<times> world" where
  "save_report report_text w = (Inr (), w\<lparr>report := Some report_text\<rparr>)"

definition write_effort :: "string \<Rightarrow> world \<Rightarrow> (py_error + unit) \<times> world" where
  "write_effort effort_text w =
     (Inr (),
      append_report effort_text
        (append_report (''### Effort Estimation'' @ NL)
          (append_report (NL @ NL @ ''---'' @ NL) w)))"

definition write_guidelines :: "world \<Rightarrow> (py_error + unit) \<times> world" where
  "write_guidelines w =
     (Inr (),
      append_report
        (''This review follows **PEP8** and **Google Python Style Guide** recommendations as enforced by Ruff.'' @ NL)
        (append_report (''### Coding Guideline Awareness'' @ NL)
          (append_report (NL @ NL @ ''---'' @ NL) w)))"

definition timing_line :: "(nat \<Rightarrow> real \<Rightarrow> string) \<Rightarrow> string \<times> real \<Rightarrow> string" where
  "timing_line fmt p = ''- '' @ fst p @ '': '' @ fmt 2 (snd p) @ '' seconds'' @ NL"

definition write_performance ::
  "(nat \<Rightarrow> real \<Rightarrow> string) \<Rightarrow> (string \<times> real) list \<Rightarrow> world \<Rightarrow> (py_error + unit) \<times> world" where
  "write_performance fmt performance_stats w =
     (let total_time = sum_list (map snd performance_stats)
      in (Inr (),
          append_report
            (NL @ ''**Total execution time:** '' @ fmt 2 total_time @ '' seconds'' @ NL)
            (append_report (concat (map (timing_line fmt) performance_stats))
              (append_report (''### Performance Summary'' @ NL)
                (append_report (NL @ NL @ ''---'' @ NL) w)))))"

definition write_ai_cost :: "(nat \<Rightarrow> real \<Rightarrow> string) \<Rightarrow> world \<Rightarrow> (py_error + unit) \<times> world" where
  "write_ai_cost fmt w =
     (if ai_usage_log w = [] then (Inr (), w)
      else (let total_ai_time = sum_list (map snd (ai_usage_log w));
                estimated_cost = total_ai_time * (1 / 10000)
            in (Inr (),
                append_report (''**Simulated cost:** $'' @ fmt 4 estimated_cost @ NL)
                  (append_report
                    (NL @ ''**Total AI time:** '' @ fmt 2 total_ai_time @ '' seconds'' @ NL)
                    (append_report (concat (map (timing_line fmt) (ai_usage_log w)))
                      (append_report (''### AI Cost Management'' @ NL)
                        (append_report (NL @ NL @ ''---'' @ NL) w)))))))"

section \<open>The orchestration\<close>

text \<open>Sequencing: an exception of a step ends the sequence with the state reached.\<close>

definition then_do ::
  "(world \<Rightarrow> (py_error + 'a) \<times> world) \<Rightarrow> ('a \<Rightarrow> world \<Rightarrow> (py_error + 'b) \<times> world)
     \<Rightarrow> world \<Rightarrow> (py_error + 'b) \<times> world" where
  "then_do m k w = (case m w of (Inl e, w') \<Rightarrow> (Inl e, w') | (Inr a, w') \<Rightarrow> k a w')"

text \<open>Steps 4 to the end of \<^verbatim>\<open>main\<close>; the value returned is the final \<^verbatim>\<open>performance_stats\<close>.\<close>

definition stages ::
  "env \<Rightarrow> finding list \<Rightarrow> (string \<times> real) list \<Rightarrow> world
     \<Rightarrow> (py_error + (string \<times> real) list) \<times> world" where
  "stages e findings stats0 =
     then_do (timed_section (analyze_with_llm findings (review_reply e))) (\<lambda>(ai_review, ai_time).
     then_do (save_report ai_review) (\<lambda>_.
     then_do (timed_section (generate_auto_fix findings (fix_reply e))) (\<lambda>(_, fix_time).
     then_do (timed_section (estimate_effort findings (effort_reply e))) (\<lambda>(effort_text, effort_time).
     then_do (write_effort effort_text) (\<lambda>_.
     then_do (add_comment_section (repr_of e) findings) (\<lambda>_.
     then_do (timed_section (document_findings findings (doc_reply e))) (\<lambda>(_, doc_time).
     then_do write_guidelines (\<lambda>_.
     then_do (timed_section (suggest_doc_updates findings (update_reply e))) (\<lambda>(_, suggest_time).
       (let performance_stats =
              stats0 @ [(''AI Review'', ai_time), (''Auto Fix'', fix_time),
                        (''Effort Estimation'', effort_time), (''Document Findings'', doc_time),
                        (''Doc Updates'', suggest_time)]
        in then_do (write_performance (fmt_float e) performance_stats) (\<lambda>_.
           then_do (write_ai_cost (fmt_float e)) (\<lambda>_ w. (Inr performance_stats, w)))))))))))))"

datatype outcome = Completed | File_not_found | No_changes | Crashed py_error

text \<open>
  Step 1. The first branch is taken when
  \<^verbatim>\<open>mode in ("file", "file_specific") and file_target\<close> holds: a target that is \<open>None\<close>
  or the empty string is false.
\<close>

definition single_file_target :: "string \<Rightarrow> string option \<Rightarrow> string option" where
  "single_file_target mode file_target =
     (if mode = ''file'' \<or> mode = ''file_specific''
      then (case file_target of None \<Rightarrow> None | Some t \<Rightarrow> if t = [] then None else Some t)
      else None)"

definition select_files :: "env \<Rightarrow> string \<Rightarrow> string option \<Rightarrow> outcome + string list" where
  "select_files e mode file_target =
     (case single_file_target mode file_target of
        Some t \<Rightarrow> if \<not> path_exists e t then Inl File_not_found else Inr [t]
      | None \<Rightarrow>
          if mode = ''incremental''
          then (let changed_files = get_changed_files (git_diff e)
                in if changed_files \<noteq> [] then Inr changed_files else Inl No_changes)
          else Inr (sample_files e))"

definition main :: "env \<Rightarrow> string \<Rightarrow> string option \<Rightarrow> world \<Rightarrow> outcome \<times> world" where
  "main e mode file_target w =
     (case select_files e mode file_target of
        Inl early \<Rightarrow> (early, w)
      | Inr changed_files \<Rightarrow>
          (case analyze_files e changed_files ([], [], []) w of
             (Inl err, w1) \<Rightarrow> (Crashed err, w1)
           | (Inr (all_ruff, all_bandit, stats), w1) \<Rightarrow>
               (case gather_findings all_ruff all_bandit (path_exists e) of
                  Inl err \<Rightarrow> (Crashed err, w1)
                | Inr findings \<Rightarrow>
                    (case stages e findings stats w1 of
                       (Inl err, w2) \<Rightarrow> (Crashed err, w2)
                     | (Inr _, w2) \<Rightarrow> (Completed, w2)))))"

text \<open>
  The script: the module-level statements (the empty \<^verbatim>\<open>ai_usage_log\<close>, the load of the
  rule store), the arguments, \<^verbatim>\<open>main\<close>.
\<close>

fun parse_args :: "string list \<Rightarrow> string \<times> string option \<Rightarrow> string \<times> string option" where
  "parse_args [] acc = acc"
| "parse_args (arg # args) (mode, file_target) =
     (if arg = ''--mode=incremental'' then parse_args args (''incremental'', file_target)
      else if startswith arg ''--file='' then parse_args args (''file'', Some (drop 7 arg))
      else parse_args args (mode, file_target))"

definition script :: "env \<Rightarrow> string list \<Rightarrow> world \<Rightarrow> outcome \<times> world" where
  "script e argv w =
     (let w0 = w\<lparr>ai_usage_log := []\<rparr>
      in case load_custom_rules (rules_file e) of
           Inl err \<Rightarrow> (Crashed err, w0)
         | Inr custom_rules \<Rightarrow>
             (case parse_args argv (''full'', None) of
                (mode, file_target) \<Rightarrow> main e mode file_target w0))"


section \<open>Concrete inputs\<close>

text \<open>
  A reply of the service with status 200 and the given content, a reply with status 500,
  and a request that fails in transport.
\<close>

definition ok_reply :: "string \<Rightarrow> reply" where
  "ok_reply s =
     \<lparr>latency = 2,
      outcome = Response 200 (Parses (JObj [(''message'', JObj [(''content'', JStr s)])]))\<rparr>"

definition error_reply :: reply where
  "error_reply = \<lparr>latency = 1, outcome = Response 500 Garbled\<rparr>"

definition down_reply :: reply where
  "down_reply = \<lparr>latency = 0, outcome = Transport_failure\<rparr>"

definition world0 :: world where
  "world0 =
     \<lparr>now = 100, report = None, patches_dir = True, patches = [], ai_usage_log = [],
      sent = [], spawned = []\<rparr>"

text \<open>
  One target file for which Ruff reports two messages and Bandit one issue; every
  directory exists and the service answers every request. The rendering of floats and
  containers plays no part in the properties below and is fixed arbitrarily.
\<close>

definition ruff_item0 :: json where
  "ruff_item0 =
     JObj [(''filename'', JStr ''a.py''),
           (''messages'',
            JArr [JObj [(''message'', JStr ''unused import''),
                        (''location'', JObj [(''row'', JInt 1)])],
                  JObj [(''message'', JStr ''line too long''),
                        (''location'', JObj [(''row'', JInt 7)])]])]"

definition bandit_issue0 :: json where
  "bandit_issue0 =
     JObj [(''filename'', JStr ''a.py''), (''issue_text'', JStr ''assert used''),
           (''line_number'', JInt 3)]"

definition ruff_output0 :: json where
  "ruff_output0 = JArr [ruff_item0]"

definition bandit_output0 :: json where
  "bandit_output0 = JObj [(''results'', JArr [bandit_issue0])]"

definition paths0 :: "string list" where
  "paths0 = [''orchestrator'', ''sample'', ''reports'', ''patches'', ''sample/a.py'']"

definition env0 :: env where
  "env0 =
     \<lparr>rules_file = None, path_exists = (\<lambda>p. p \<in> set paths0), git_diff = None,
      sample_files = [''sample/a.py''],
      ruff_run = (\<lambda>f. \<lparr>took = 1, stdout = Some (Parses ruff_output0)\<rparr>),
      bandit_run = (\<lambda>f. \<lparr>took = 1, stdout = Some (Parses bandit_output0)\<rparr>),
      review_reply = ok_reply ''fine'', fix_reply = ok_reply ''--- a'',
      effort_reply = ok_reply ''Low'', doc_reply = ok_reply ''docs'',
      update_reply = ok_reply ''upd'',
      repr_of = (\<lambda>v. []), fmt_float = (\<lambda>n x. ''0.00'')\<rparr>"

text \<open>
  The same records with white space around the messages: a no-break space (U+00A0), an
  em space (U+2003), line feeds and blanks.
\<close>

definition ruff_item1 :: json where
  "ruff_item1 =
     JObj [(''filename'', JStr ''a.py''),
           (''messages'',
            JArr [JObj [(''message'', JStr (''  unused import'' @ [CHR 0xC2, CHR 0xA0])),
                        (''location'', JObj [(''row'', JInt 1)])],
                  JObj [(''message'',
                         JStr ([CHR 0xE2, CHR 0x80, CHR 0x83] @ ''line too long'' @ NL)),
                        (''location'', JObj [(''row'', JInt 7)])]])]"

definition bandit_issue1 :: json where
  "bandit_issue1 =
     JObj [(''filename'', JStr ''a.py''),
           (''issue_text'', JStr (NL @ ''assert'' @ [CHR 0xC2, CHR 0xA0] @ ''used '')),
           (''line_number'', JInt 3)]"

definition findings1 :: "finding list" where
  "findings1 =
     [\<lparr>tool = ''ruff'', filename = JStr ''a.py'',
       message = JStr (''  unused import'' @ [CHR 0xC2, CHR 0xA0]), line = JInt 1\<rparr>,
      \<lparr>tool = ''ruff'', filename = JStr ''a.py'',
       message = JStr ([CHR 0xE2, CHR 0x80, CHR 0x83] @ ''line too long'' @ NL), line = JInt 7\<rparr>,
      \<lparr>tool = ''bandit'', filename = JStr ''a.py'',
       message = JStr (NL @ ''assert'' @ [CHR 0xC2, CHR 0xA0] @ ''used ''), line = JInt 3\<rparr>,
      \<lparr>tool = ''architecture'', filename = JStr ''project'',
       message = JStr ''Project structure follows modular architecture.'', line = JInt 0\<rparr>]"

text \<open>A file system in which, of the expected directories, only \<^verbatim>\<open>orchestrator\<close> exists.\<close>

definition only_orchestrator :: "string \<Rightarrow> bool" where
  "only_orchestrator d = (d = ''orchestrator'')"

definition findings0 :: "finding list" where
  "findings0 =
     [\<lparr>tool = ''ruff'', filename = JStr ''a.py'', message = JStr ''unused import'', line = JInt 1\<rparr>,
      \<lparr>tool = ''ruff'', filename = JStr ''a.py'', message = JStr ''line too long'', line = JInt 7\<rparr>,
      \<lparr>tool = ''bandit'', filename = JStr ''a.py'', message = JStr ''assert used'', line = JInt 3\<rparr>,
      \<lparr>tool = ''architecture'', filename = JStr ''project'',
       message = JStr ''Project structure follows modular architecture.'', line = JInt 0\<rparr>]"

section \<open>Evaluation rules\<close>

lemmas strip_defs = strip_def strip_chars_def is_space_def space_codes_def is_cont_def

lemmas service_defs =
  analyze_with_llm_def generate_auto_fix_def estimate_effort_def document_findings_def
  suggest_doc_updates_def requests_post_def track_ai_usage_def message_content_def
  reply_text_def json_loads_def json_get_def py_strip_def strip_defs
  append_report_def write_patch_def patch_name_def py_int_def doc_updates_heading_def

lemmas gather_defs =
  gather_findings_def ruff_finding_def bandit_finding_def json_get_def py_iter_def
  check_architecture_structure_def required_dirs_def architecture_finding_def

lemmas run_defs =
  script_def main_def stages_def select_files_def single_file_target_def
  load_custom_rules_def timed_section_def run_ruff_def run_bandit_def run_command_def
  bandit_results_def py_contains_def py_getitem_def then_do_def get_changed_files_def
  endswith_def startswith_def

lemmas report_defs =
  add_comment_section_def comment_entry_def save_report_def write_effort_def
  write_guidelines_def write_performance_def write_ai_cost_def timing_line_def py_str_def
  show_nat.simps show_int_def digit_def responses_heading_def checkboxes_def dash_def

lemmas fixture_defs =
  ok_reply_def error_reply_def down_reply_def world0_def env0_def ruff_output0_def
  bandit_output0_def findings0_def ruff_item0_def bandit_issue0_def paths0_def
  ruff_item1_def bandit_issue1_def findings1_def

section \<open>White space\<close>

text \<open>
  Splitting a string into characters loses nothing, and \<open>strip\<close> removes exactly
  the white-space characters at the two ends: what is left is a part of the string, the
  parts cut off are white space, and the first and the last character left are not.
\<close>

lemma concat_utf8_chars: "concat (utf8_chars s) = s"
  by (induction s rule: utf8_chars.induct) (auto split: list.splits)

lemma strip_chars_infix:
  "\<exists>a b. chs = a @ strip_chars chs @ b \<and> list_all is_space a \<and> list_all is_space b"
proof -
  let ?m = "dropWhile is_space chs"
  have 1: "chs = takeWhile is_space chs @ ?m" by simp
  have "rev ?m = takeWhile is_space (rev ?m) @ dropWhile is_space (rev ?m)" by simp
  then have "?m = rev (dropWhile is_space (rev ?m)) @ rev (takeWhile is_space (rev ?m))"
    by (metis rev_append rev_rev_ident)
  then have "chs = takeWhile is_space chs @ strip_chars chs @ rev (takeWhile is_space (rev ?m))"
    using 1 by (simp add: strip_chars_def)
  moreover have "list_all is_space (takeWhile is_space chs)"
    by (simp add: list_all_iff) (meson set_takeWhileD)
  moreover have "list_all is_space (rev (takeWhile is_space (rev ?m)))"
    by (simp add: list_all_iff) (meson set_takeWhileD)
  ultimately show ?thesis by blast
qed

lemma strip_chars_ends:
  "strip_chars chs = [] \<or>
   (\<not> is_space (hd (strip_chars chs)) \<and> \<not> is_space (last (strip_chars chs)))"
proof (cases "strip_chars chs = []")
  case True
  then show ?thesis by simp
next
  case False
  let ?m = "dropWhile is_space chs"
  let ?r = "dropWhile is_space (rev ?m)"
  from False have r: "?r \<noteq> []" by (simp add: strip_chars_def)
  then have "\<not> is_space (hd ?r)" by (rule hd_dropWhile)
  then have l: "\<not> is_space (last (strip_chars chs))"
    using r by (simp add: strip_chars_def last_rev)
  have m: "?m \<noteq> []"
  proof
    assume "?m = []"
    with r show False by simp
  qed
  then have hm: "\<not> is_space (hd ?m)" by (rule hd_dropWhile)
  have "hd (rev ?r) = hd ?m"
  proof -
    have "rev ?m = takeWhile is_space (rev ?m) @ ?r" by simp
    then have "?m = rev ?r @ rev (takeWhile is_space (rev ?m))"
      by (metis rev_append rev_rev_ident)
    with r show ?thesis by (metis hd_append2 rev_is_Nil_conv)
  qed
  with hm l show ?thesis by (simp add: strip_chars_def)
qed

lemma strip_infix: "\<exists>a b. s = a @ strip s @ b"
proof -
  from strip_chars_infix [of "utf8_chars s"] obtain a b where
    "utf8_chars s = a @ strip_chars (utf8_chars s) @ b" by blast
  then have "concat (utf8_chars s) = concat a @ strip s @ concat b"
    by (metis concat_append strip_def)
  then show ?thesis by (auto simp: concat_utf8_chars)
qed

lemma strip_unicode_spaces:
  "strip ('' '' @ [CHR 0xC2, CHR 0xA0] @ ''ab'' @ [CHR 0xE2, CHR 0x80, CHR 0x83] @ ''c ''
          @ [CHR 0xE2, CHR 0x80, CHR 0x83, CHR 0xC2, CHR 0x85, CHR 0x0A])
     = ''ab'' @ [CHR 0xE2, CHR 0x80, CHR 0x83] @ ''c''"
  by (simp add: strip_defs)

lemma strip_all_spaces: "strip (concat space_codes) = []"
  by (simp add: strip_defs)

section \<open>The model-service calls\<close>

text \<open>
  Four of the five calls wrap the request in a \<^verbatim>\<open>try\<close>: whatever the service does,
  they return.
\<close>

lemma generate_auto_fix_returns: "\<exists>v. fst (generate_auto_fix fs r w) = Inr v"
  by (simp add: generate_auto_fix_def requests_post_def write_patch_def Let_def
      split: http_result.splits sum.splits prod.splits)

lemma estimate_effort_returns: "\<exists>v. fst (estimate_effort fs r w) = Inr v"
  by (simp add: estimate_effort_def requests_post_def Let_def
      split: http_result.splits sum.splits prod.splits)

lemma document_findings_returns: "fst (document_findings fs r w) = Inr ()"
  by (simp add: document_findings_def requests_post_def Let_def
      split: http_result.splits sum.splits prod.splits)

lemma suggest_doc_updates_returns: "fst (suggest_doc_updates fs r w) = Inr ()"
  by (simp add: suggest_doc_updates_def requests_post_def Let_def
      split: http_result.splits sum.splits prod.splits)

lemma analyze_with_llm_bad_status:
  "code \<noteq> 200 \<Longrightarrow>
   fst (analyze_with_llm fs \<lparr>latency = t, outcome = Response code body\<rparr> w)
     = Inr ''Error: LLM could not generate a response.''"
  by (simp add: analyze_with_llm_def requests_post_def)

text \<open>
  C6. With no findings, \<^verbatim>\<open>estimate_effort\<close> returns the fixed sentence and
  \<^verbatim>\<open>generate_auto_fix\<close> returns \<open>None\<close>; in both the state is the one they were given:
  no request was posted and no patch file was written.
\<close>

theorem estimate_effort_empty:
  "estimate_effort [] r w = (Inr ''No issues found, no effort required.'', w)
   \<and> generate_auto_fix [] r w = (Inr None, w)"
  by (simp add: estimate_effort_def generate_auto_fix_def)

text \<open>
  C1. The narrative review posts its request outside any \<^verbatim>\<open>try\<close>: when the request
  fails in transport, \<^verbatim>\<open>analyze_with_llm\<close> raises instead of returning a value, and a run
  that reaches this stage ends there, before the report is written. (A status other than
  200 does give the fixed error text and the other four calls return in every case, by the
  lemmas above; once the review has returned, the later stages run to the end, by
  \<open>stages_completes\<close> below.)
\<close>

theorem analyze_with_llm_transport_failure:
  "fst (analyze_with_llm fs \<lparr>latency = t, outcome = Transport_failure\<rparr> w) = Inl RequestException
   \<and> script (env0\<lparr>review_reply := down_reply\<rparr>) [] world0
       = (Crashed RequestException,
          world0\<lparr>now := 102, sent := [Review],
                 spawned := [(''ruff'', ''sample/a.py''), (''bandit'', ''sample/a.py'')]\<rparr>)"
  by (simp add: fixture_defs service_defs gather_defs run_defs Let_def)

text \<open>A complete run in which the service answers every request.\<close>

lemma stages_run0:
  "fst (stages env0 findings0 [] world0)
     = Inr [(''AI Review'', 2), (''Auto Fix'', 2), (''Effort Estimation'', 2),
            (''Document Findings'', 2), (''Doc Updates'', 2)]"
  by (simp add: fixture_defs service_defs run_defs report_defs Let_def)

lemma stages_usage0:
  "ai_usage_log (snd (stages env0 findings0 [] world0))
     = [(''analyze_with_llm'', 2), (''document_findings'', 2), (''suggest_doc_updates'', 2)]"
  by (simp add: fixture_defs service_defs run_defs report_defs Let_def)

text \<open>
  C9. A call that is answered with status 200 adds no record to \<^verbatim>\<open>ai_usage_log\<close> in
  \<^verbatim>\<open>estimate_effort\<close> and \<^verbatim>\<open>generate_auto_fix\<close>, and a call answered with another status
  adds none in any of the five functions. In a run where every request succeeds,
  \<^verbatim>\<open>performance_stats\<close> holds the five stages and \<^verbatim>\<open>ai_usage_log\<close> three of them.
\<close>

theorem ai_usage_not_tracked:
  "ai_usage_log (snd (estimate_effort (f # fs) (ok_reply s) w)) = ai_usage_log w
   \<and> ai_usage_log (snd (generate_auto_fix (f # fs) (ok_reply s) (w\<lparr>patches_dir := True\<rparr>)))
       = ai_usage_log w
   \<and> ai_usage_log (snd (analyze_with_llm (f # fs) error_reply w)) = ai_usage_log w
   \<and> ai_usage_log (snd (generate_auto_fix (f # fs) error_reply w)) = ai_usage_log w
   \<and> ai_usage_log (snd (estimate_effort (f # fs) error_reply w)) = ai_usage_log w
   \<and> ai_usage_log (snd (document_findings (f # fs) error_reply w)) = ai_usage_log w
   \<and> ai_usage_log (snd (suggest_doc_updates (f # fs) error_reply w)) = ai_usage_log w
   \<and> fst (stages env0 findings0 [] world0)
       = Inr [(''AI Review'', 2), (''Auto Fix'', 2), (''Effort Estimation'', 2),
              (''Document Findings'', 2), (''Doc Updates'', 2)]
   \<and> ai_usage_log (snd (stages env0 findings0 [] world0))
       = [(''analyze_with_llm'', 2), (''document_findings'', 2), (''suggest_doc_updates'', 2)]"
  by (simp add: stages_run0 stages_usage0 ok_reply_def error_reply_def service_defs Let_def)

section \<open>The rule store\<close>

text \<open>
  C5. \<^verbatim>\<open>load_custom_rules\<close> returns the empty dict for an absent store and the parsed
  value for a well-formed one, but a store that is not JSON raises
  \<^verbatim>\<open>JSONDecodeError\<close>; the load is a module-level statement, so the script ends there,
  whatever its arguments.
\<close>

theorem load_custom_rules_malformed:
  "load_custom_rules None = Inr (JObj [])
   \<and> load_custom_rules (Some (Parses j)) = Inr j
   \<and> load_custom_rules (Some Garbled) = Inl JSONDecodeError
   \<and> fst (script (e\<lparr>rules_file := Some Garbled\<rparr>) argv w) = Crashed JSONDecodeError"
  by (simp add: load_custom_rules_def json_loads_def script_def)

section \<open>Normalisation of analyzer records\<close>

text \<open>
  C7. A Ruff record without file name, message and location, and a Bandit record without
  any field, become findings whose file name, message and line are all \<open>None\<close>: no
  ``unknown'' text is substituted. The developer-response section then raises on the
  message that is not a string.
\<close>

theorem missing_fields_become_null:
  "gather_findings [JObj [(''messages'', JArr [JObj []])]] [JObj []] (\<lambda>d. True)
     = Inr [\<lparr>tool = ''ruff'', filename = JNull, message = JNull, line = JNull\<rparr>,
            \<lparr>tool = ''bandit'', filename = JNull, message = JNull, line = JNull\<rparr>,
            \<lparr>tool = ''architecture'', filename = JStr ''project'',
             message = JStr ''Project structure follows modular architecture.'', line = JInt 0\<rparr>]
   \<and> fst (add_comment_section rp
            [\<lparr>tool = ''ruff'', filename = JNull, message = JNull, line = JNull\<rparr>] w)
       = Inl AttributeError"
  by (simp add: gather_defs report_defs py_strip_def)

section \<open>The loops of the gathering step append\<close>

lemma ruff_messages_append:
  "ruff_messages item msgs acc =
     (case ruff_messages item msgs [] of Inl e \<Rightarrow> Inl e | Inr new \<Rightarrow> Inr (acc @ new))"
proof (induction msgs arbitrary: acc)
  case Nil
  show ?case by simp
next
  case (Cons m ms)
  show ?case
  proof (cases "ruff_finding item m")
    case (Inl e)
    then show ?thesis by simp
  next
    case (Inr f)
    have a: "ruff_messages item ms (acc @ [f]) =
        (case ruff_messages item ms [] of Inl e \<Rightarrow> Inl e | Inr new \<Rightarrow> Inr ((acc @ [f]) @ new))"
      by (rule Cons.IH)
    have b: "ruff_messages item ms [f] =
        (case ruff_messages item ms [] of Inl e \<Rightarrow> Inl e | Inr new \<Rightarrow> Inr ([f] @ new))"
      by (rule Cons.IH)
    show ?thesis using Inr a b by (simp split: sum.splits)
  qed
qed

lemma ruff_messages_tool:
  "ruff_messages item msgs [] = Inr new \<Longrightarrow> list_all (\<lambda>f. tool f = ''ruff'') new"
proof (induction msgs arbitrary: new)
  case Nil
  then show ?case by simp
next
  case (Cons m ms)
  from Cons.prems obtain f where f: "ruff_finding item m = Inr f"
    by (cases "ruff_finding item m") auto
  with Cons.prems have "ruff_messages item ms [f] = Inr new" by simp
  then obtain rest where rest: "ruff_messages item ms [] = Inr rest" and new: "new = [f] @ rest"
    by (subst (asm) ruff_messages_append) (auto split: sum.splits)
  have "tool f = ''ruff''"
    using f by (auto simp: ruff_finding_def split: sum.splits)
  with Cons.IH [OF rest] new show ?case by simp
qed

lemma ruff_items_append:
  "ruff_items items acc =
     (case ruff_items items [] of Inl e \<Rightarrow> Inl e | Inr new \<Rightarrow> Inr (acc @ new))"
proof (induction items arbitrary: acc)
  case Nil
  show ?case by simp
next
  case (Cons it its)
  show ?case
  proof (cases "json_get it ''messages'' (JArr [])")
    case (Inl e)
    then show ?thesis by simp
  next
    case v: (Inr v)
    show ?thesis
    proof (cases "py_iter v")
      case (Inl e)
      with v show ?thesis by simp
    next
      case msgs: (Inr msgs)
      show ?thesis
      proof (cases "ruff_messages it msgs []")
        case (Inl e)
        with v msgs show ?thesis
          by (simp add: ruff_messages_append [of it msgs acc])
      next
        case (Inr part)
        have a: "ruff_items its (acc @ part) =
            (case ruff_items its [] of Inl e \<Rightarrow> Inl e | Inr new \<Rightarrow> Inr ((acc @ part) @ new))"
          by (rule Cons.IH)
        have b: "ruff_items its part =
            (case ruff_items its [] of Inl e \<Rightarrow> Inl e | Inr new \<Rightarrow> Inr (part @ new))"
          by (rule Cons.IH)
        show ?thesis using v msgs Inr a b
          by (simp add: ruff_messages_append [of it msgs acc] split: sum.splits)
      qed
    qed
  qed
qed

lemma ruff_items_Cons:
  "ruff_items (it # its) [] = Inr new \<Longrightarrow>
   \<exists>v msgs part rest. json_get it ''messages'' (JArr []) = Inr v \<and> py_iter v = Inr msgs
      \<and> ruff_messages it msgs [] = Inr part \<and> ruff_items its [] = Inr rest
      \<and> new = part @ rest"
  by (simp split: sum.splits, subst (asm) ruff_items_append) (auto split: sum.splits)

lemma ruff_items_tool:
  "ruff_items items [] = Inr new \<Longrightarrow> list_all (\<lambda>f. tool f = ''ruff'') new"
proof (induction items arbitrary: new)
  case Nil
  then show ?case by simp
next
  case (Cons it its)
  from ruff_items_Cons [OF Cons.prems] obtain v msgs part rest where
    "ruff_messages it msgs [] = Inr part" "ruff_items its [] = Inr rest" "new = part @ rest"
    by blast
  with Cons.IH ruff_messages_tool show ?case by simp
qed

lemma ruff_items_app:
  "ruff_items (xs @ ys) acc =
     (case ruff_items xs acc of Inl e \<Rightarrow> Inl e | Inr mid \<Rightarrow> ruff_items ys mid)"
  by (induction xs arbitrary: acc) (simp_all split: sum.splits)

lemma bandit_issues_append:
  "bandit_issues issues acc =
     (case bandit_issues issues [] of Inl e \<Rightarrow> Inl e | Inr new \<Rightarrow> Inr (acc @ new))"
proof (induction issues arbitrary: acc)
  case Nil
  show ?case by simp
next
  case (Cons i rest_issues)
  show ?case
  proof (cases "bandit_finding i")
    case (Inl e)
    then show ?thesis by simp
  next
    case (Inr f)
    have a: "bandit_issues rest_issues (acc @ [f]) =
        (case bandit_issues rest_issues [] of Inl e \<Rightarrow> Inl e | Inr new \<Rightarrow> Inr ((acc @ [f]) @ new))"
      by (rule Cons.IH)
    have b: "bandit_issues rest_issues [f] =
        (case bandit_issues rest_issues [] of Inl e \<Rightarrow> Inl e | Inr new \<Rightarrow> Inr ([f] @ new))"
      by (rule Cons.IH)
    show ?thesis using Inr a b by (simp split: sum.splits)
  qed
qed

lemma bandit_issues_tool:
  "bandit_issues issues [] = Inr new \<Longrightarrow> list_all (\<lambda>f. tool f = ''bandit'') new"
proof (induction issues arbitrary: new)
  case Nil
  then show ?case by simp
next
  case (Cons i rest_issues)
  from Cons.prems obtain f where f: "bandit_finding i = Inr f"
    by (cases "bandit_finding i") auto
  with Cons.prems have "bandit_issues rest_issues [f] = Inr new" by simp
  then obtain rest where rest: "bandit_issues rest_issues [] = Inr rest" and new: "new = [f] @ rest"
    by (subst (asm) bandit_issues_append) (auto split: sum.splits)
  have "tool f = ''bandit''"
    using f by (auto simp: bandit_finding_def split: sum.splits)
  with Cons.IH [OF rest] new show ?case by simp
qed

lemma bandit_issues_app:
  "bandit_issues (xs @ ys) acc =
     (case bandit_issues xs acc of Inl e \<Rightarrow> Inl e | Inr mid \<Rightarrow> bandit_issues ys mid)"
  by (induction xs arbitrary: acc) (simp_all split: sum.splits)

lemma architecture_notes_append:
  "architecture_notes ns acc = acc @ map architecture_finding ns"
  by (induction ns arbitrary: acc) simp_all

lemma check_architecture_structure_single:
  "check_architecture_structure ex =
     [if list_all ex required_dirs then ''Project structure follows modular architecture.''
      else ''Missing expected module directories: '' @
           join '', '' (filter (\<lambda>d. \<not> ex d) required_dirs)]"
  by (simp add: check_architecture_structure_def Let_def filter_empty_conv list_all_iff)

lemma gather_findings_split:
  assumes "gather_findings all_ruff all_bandit ex = Inr fs"
  shows "\<exists>rs bs. ruff_items all_ruff [] = Inr rs \<and> bandit_issues all_bandit [] = Inr bs
           \<and> fs = rs @ bs @ map architecture_finding (check_architecture_structure ex)"
proof -
  from assms obtain rs where rs: "ruff_items all_ruff [] = Inr rs"
    by (cases "ruff_items all_ruff []") (auto simp: gather_findings_def)
  from assms rs obtain mid where mid: "bandit_issues all_bandit rs = Inr mid"
    by (cases "bandit_issues all_bandit rs") (auto simp: gather_findings_def)
  then obtain bs where bs: "bandit_issues all_bandit [] = Inr bs" and "mid = rs @ bs"
    by (subst (asm) bandit_issues_append) (auto split: sum.splits)
  with assms rs mid show ?thesis
    by (simp add: gather_findings_def architecture_notes_append)
qed


lemma gather_run0:
  "gather_findings [ruff_item0] [bandit_issue0] (path_exists env0) = Inr findings0"
  by (simp add: fixture_defs gather_defs)

lemma gather_run1:
  "gather_findings [ruff_item0, ruff_item0] [bandit_issue0, bandit_issue0] (path_exists env0)
     = Inr (take 2 findings0 @ take 2 findings0 @ [findings0 ! 2, findings0 ! 2, findings0 ! 3])"
  by (simp add: fixture_defs gather_defs)

section \<open>The architecture check\<close>

text \<open>
  The claim C8 as stated fails: with only \<^verbatim>\<open>orchestrator\<close> present, two directories are
  missing and the check returns one note.
\<close>

theorem missing_dirs_one_note_counterexample:
  "filter (Not \<circ> only_orchestrator) required_dirs = [''sample'', ''reports'']
   \<and> check_architecture_structure only_orchestrator
       = [''Missing expected module directories: sample, reports'']
   \<and> length (check_architecture_structure only_orchestrator) \<noteq>
       length (filter (Not \<circ> only_orchestrator) required_dirs)"
  by (simp add: check_architecture_structure_def required_dirs_def only_orchestrator_def)

text \<open>
  C8, amended. In every file-system state the check returns exactly one note: the
  confirming sentence when the three directories exist, otherwise one sentence that lists
  all the missing directories. The note becomes the last of the gathered findings, with
  tool \<^verbatim>\<open>architecture\<close>, file \<^verbatim>\<open>project\<close> and line 0, and no finding before it carries
  that tool.
\<close>

theorem architecture_single_note:
  "\<exists>msg. check_architecture_structure ex = [msg]
     \<and> (list_all ex required_dirs \<longrightarrow> msg = ''Project structure follows modular architecture.'')
     \<and> (\<not> list_all ex required_dirs \<longrightarrow>
          msg = ''Missing expected module directories: '' @
                 join '', '' (filter (\<lambda>d. \<not> ex d) required_dirs))
     \<and> (\<forall>fs. gather_findings all_ruff all_bandit ex = Inr fs \<longrightarrow>
          (\<exists>front. fs = front @ [\<lparr>tool = ''architecture'', filename = JStr ''project'',
                                    message = JStr msg, line = JInt 0\<rparr>]
                   \<and> list_all (\<lambda>f. tool f \<noteq> ''architecture'') front))"
proof -
  define msg where "msg =
    (if list_all ex required_dirs then ''Project structure follows modular architecture.''
     else ''Missing expected module directories: '' @
          join '', '' (filter (\<lambda>d. \<not> ex d) required_dirs))"
  have single: "check_architecture_structure ex = [msg]"
    by (simp add: check_architecture_structure_single msg_def)
  have last: "\<exists>front. fs = front @ [\<lparr>tool = ''architecture'', filename = JStr ''project'',
                                    message = JStr msg, line = JInt 0\<rparr>]
                   \<and> list_all (\<lambda>f. tool f \<noteq> ''architecture'') front"
    if g: "gather_findings all_ruff all_bandit ex = Inr fs" for fs
  proof -
    from gather_findings_split [OF g] obtain rs bs where
      rs: "ruff_items all_ruff [] = Inr rs" and bs: "bandit_issues all_bandit [] = Inr bs"
      and fs: "fs = rs @ bs @ map architecture_finding (check_architecture_structure ex)"
      by blast
    have "list_all (\<lambda>f. tool f \<noteq> ''architecture'') rs"
      using ruff_items_tool [OF rs] by (simp add: list_all_iff)
    moreover have "list_all (\<lambda>f. tool f \<noteq> ''architecture'') bs"
      using bandit_issues_tool [OF bs] by (simp add: list_all_iff)
    ultimately have "list_all (\<lambda>f. tool f \<noteq> ''architecture'') (rs @ bs)" by simp
    moreover have "fs = (rs @ bs) @ [\<lparr>tool = ''architecture'', filename = JStr ''project'',
                                    message = JStr msg, line = JInt 0\<rparr>]"
      using fs single by (simp add: architecture_finding_def)
    ultimately show ?thesis by blast
  qed
  from single last show ?thesis
    by (intro exI [of _ msg]) (simp add: msg_def)
qed

theorem architecture_single_note_witness:
  "\<exists>msg. check_architecture_structure (path_exists env0) = [msg]
     \<and> msg = ''Project structure follows modular architecture.''
     \<and> gather_findings [ruff_item0] [bandit_issue0] (path_exists env0) = Inr findings0
     \<and> (\<exists>front. findings0 = front @ [\<lparr>tool = ''architecture'', filename = JStr ''project'',
                                    message = JStr msg, line = JInt 0\<rparr>]
                   \<and> list_all (\<lambda>f. tool f \<noteq> ''architecture'') front)"
proof -
  have a: "list_all (path_exists env0) required_dirs"
    by (simp add: fixture_defs required_dirs_def)
  have g: "gather_findings [ruff_item0] [bandit_issue0] (path_exists env0) = Inr findings0"
    by (simp add: fixture_defs gather_defs)
  from architecture_single_note [of "path_exists env0" "[ruff_item0]" "[bandit_issue0]"] a g
  show ?thesis by blast
qed

section \<open>The requests a run posts\<close>

text \<open>
  Each model-service function posts one request when it is given a non-empty list; nothing
  else in a run posts one. A run that completes has therefore posted the five requests.
\<close>

lemma analyze_with_llm_sent: "sent (snd (analyze_with_llm fs r w)) = sent w @ [Review]"
  by (simp add: analyze_with_llm_def requests_post_def track_ai_usage_def Let_def
      split: http_result.splits sum.splits)

lemma generate_auto_fix_sent:
  "fs \<noteq> [] \<Longrightarrow> sent (snd (generate_auto_fix fs r w)) = sent w @ [Auto_fix]"
  by (simp add: generate_auto_fix_def requests_post_def track_ai_usage_def write_patch_def
      Let_def split: http_result.splits sum.splits)

lemma estimate_effort_sent:
  "fs \<noteq> [] \<Longrightarrow> sent (snd (estimate_effort fs r w)) = sent w @ [Effort]"
  by (simp add: estimate_effort_def requests_post_def track_ai_usage_def Let_def
      split: http_result.splits sum.splits)

lemma document_findings_sent:
  "fs \<noteq> [] \<Longrightarrow> sent (snd (document_findings fs r w)) = sent w @ [Doc_findings]"
  by (simp add: document_findings_def requests_post_def track_ai_usage_def append_report_def
      Let_def split: http_result.splits sum.splits)

lemma suggest_doc_updates_sent:
  "fs \<noteq> [] \<Longrightarrow> sent (snd (suggest_doc_updates fs r w)) = sent w @ [Doc_updates]"
  by (simp add: suggest_doc_updates_def requests_post_def track_ai_usage_def append_report_def
      Let_def split: http_result.splits sum.splits)

lemma add_comment_section_sent: "sent (snd (add_comment_section rp fs w)) = sent w"
  by (simp add: add_comment_section_def append_report_def split: sum.splits)

lemma writes_sent:
  "sent (snd (save_report t w)) = sent w"
  "sent (snd (write_effort t w)) = sent w"
  "sent (snd (write_guidelines w)) = sent w"
  "sent (snd (write_performance fmt st w)) = sent w"
  "sent (snd (write_ai_cost fmt w)) = sent w"
  by (simp_all add: save_report_def write_effort_def write_guidelines_def write_performance_def
      write_ai_cost_def append_report_def Let_def)

lemma sent_always:
  "analyze_with_llm fs r w = (x1, w1) \<Longrightarrow> sent w1 = sent w @ [Review]"
  "add_comment_section rp fs w = (x6, w1) \<Longrightarrow> sent w1 = sent w"
  "save_report t w = (x7, w1) \<Longrightarrow> sent w1 = sent w"
  "write_effort t w = (x7, w1) \<Longrightarrow> sent w1 = sent w"
  "write_guidelines w = (x7, w1) \<Longrightarrow> sent w1 = sent w"
  "write_performance fmt st w = (x7, w1) \<Longrightarrow> sent w1 = sent w"
  "write_ai_cost fmt w = (x7, w1) \<Longrightarrow> sent w1 = sent w"
  using analyze_with_llm_sent [of fs r w] add_comment_section_sent [of rp fs w]
    writes_sent(1,2) [of t w] writes_sent(3) [of w] writes_sent(4) [of fmt st w]
    writes_sent(5) [of fmt w]
  by auto

lemma sent_nonempty:
  assumes "fs \<noteq> []"
  shows "generate_auto_fix fs r w = (x2, w1) \<Longrightarrow> sent w1 = sent w @ [Auto_fix]"
    and "estimate_effort fs r w = (x3, w1) \<Longrightarrow> sent w1 = sent w @ [Effort]"
    and "document_findings fs r w = (x4, w1) \<Longrightarrow> sent w1 = sent w @ [Doc_findings]"
    and "suggest_doc_updates fs r w = (x5, w1) \<Longrightarrow> sent w1 = sent w @ [Doc_updates]"
  using assms generate_auto_fix_sent [of fs r w] estimate_effort_sent [of fs r w]
    document_findings_sent [of fs r w] suggest_doc_updates_sent [of fs r w]
  by auto

lemma stages_sent:
  assumes ne: "fs \<noteq> []" and run: "stages e fs st w = (Inr x, w')"
  shows "sent w' = sent w @ [Review, Auto_fix, Effort, Doc_findings, Doc_updates]"
  using run
  by (auto simp: stages_def then_do_def timed_section_def Let_def
      split: prod.splits sum.splits dest!: sent_nonempty [OF ne] sent_always)

lemma run_command_sent: "sent (snd (run_command exe f p w)) = sent w"
  by (simp add: run_command_def Let_def split: option.splits)

lemma analyze_files_sent:
  "analyze_files e files acc w = (r, w') \<Longrightarrow> sent w' = sent w"
proof (induction files arbitrary: acc w)
  case Nil
  then show ?case by simp
next
  case (Cons f files)
  obtain ar ab st where acc: "acc = (ar, ab, st)" by (cases acc)
  have r: "sent (snd (run_ruff f p w0)) = sent w0" for p w0
    using run_command_sent [of "''ruff''" f p w0]
    by (auto simp: run_ruff_def split: prod.splits sum.splits)
  have b: "sent (snd (run_bandit f p w0)) = sent w0" for p w0
    using run_command_sent [of "''bandit''" f p w0]
    by (auto simp: run_bandit_def split: prod.splits sum.splits)
  have tr: "sent (snd (timed_section (run_ruff f p) w0)) = sent w0" for p w0
    using r [of p w0] by (auto simp: timed_section_def Let_def split: prod.splits sum.splits)
  have tb: "sent (snd (timed_section (run_bandit f p) w0)) = sent w0" for p w0
    using b [of p w0] by (auto simp: timed_section_def Let_def split: prod.splits sum.splits)
  obtain x w1 where t1: "timed_section (run_ruff f (ruff_run e f)) w = (x, w1)"
    by (cases "timed_section (run_ruff f (ruff_run e f)) w")
  obtain y w2 where t2: "timed_section (run_bandit f (bandit_run e f)) w1 = (y, w2)"
    by (cases "timed_section (run_bandit f (bandit_run e f)) w1")
  have s1: "sent w1 = sent w" using tr [of "ruff_run e f" w] t1 by simp
  have s2: "sent w2 = sent w" using tb [of "bandit_run e f" w1] t2 s1 by simp
  from Cons.prems acc t1 t2 s1 s2 Cons.IH show ?case
    by (auto split: sum.splits prod.splits)
qed

lemma main_sent:
  assumes "main e mode file_target w = (Completed, w')"
  shows "sent w' = sent w @ [Review, Auto_fix, Effort, Doc_findings, Doc_updates]"
proof -
  have "select_files e mode file_target \<noteq> Inl Completed"
    by (simp add: select_files_def Let_def split: option.splits)
  with assms obtain files where "select_files e mode file_target = Inr files"
    by (cases "select_files e mode file_target") (auto simp: main_def)
  with assms obtain ar ab st w1 where
    a: "analyze_files e files ([], [], []) w = (Inr (ar, ab, st), w1)"
    and rest: "(case gather_findings ar ab (path_exists e) of
                  Inl err \<Rightarrow> (Crashed err, w1)
                | Inr findings \<Rightarrow>
                    (case stages e findings st w1 of
                       (Inl err, w2) \<Rightarrow> (Crashed err, w2)
                     | (Inr _, w2) \<Rightarrow> (Completed, w2))) = (Completed, w')"
    by (auto simp: main_def split: prod.splits sum.splits)
  from rest obtain fs where g: "gather_findings ar ab (path_exists e) = Inr fs"
    by (cases "gather_findings ar ab (path_exists e)") auto
  with rest obtain x where s: "stages e fs st w1 = (Inr x, w')"
    by (auto split: prod.splits sum.splits)
  from gather_findings_split [OF g] have ne: "fs \<noteq> []"
    by (auto simp: check_architecture_structure_single)
  from stages_sent [OF ne s] analyze_files_sent [OF a] show ?thesis by simp
qed

text \<open>
  Once the narrative review has returned, the remaining stages return whatever the
  service answers, provided the developer-response section can be built.
\<close>

lemma comment_entries_world:
  "fst (add_comment_section rp fs w) = fst (add_comment_section rp fs w0)"
  by (simp add: add_comment_section_def split: sum.splits)

lemma no_raise:
  "generate_auto_fix fs r w = (Inl x, w1) \<Longrightarrow> False"
  "estimate_effort fs r w = (Inl x, w1) \<Longrightarrow> False"
  "document_findings fs r w = (Inl x, w1) \<Longrightarrow> False"
  "suggest_doc_updates fs r w = (Inl x, w1) \<Longrightarrow> False"
  using generate_auto_fix_returns [of fs r w] estimate_effort_returns [of fs r w]
    document_findings_returns [of fs r w] suggest_doc_updates_returns [of fs r w]
  by auto

lemma stages_completes:
  assumes review: "fst (analyze_with_llm fs (review_reply e) w) = Inr t"
      and comments: "fst (add_comment_section (repr_of e) fs w) = Inr ()"
  shows "\<exists>st w'. stages e fs st0 w = (Inr st, w')"
proof -
  have c: "add_comment_section (repr_of e) fs w0 = (Inl x, w1) \<Longrightarrow> False" for w0 x w1
    using comments comment_entries_world [of "repr_of e" fs w0 w] by simp
  show ?thesis
    using review
    by (auto simp: stages_def then_do_def timed_section_def Let_def save_report_def
        write_effort_def write_guidelines_def write_performance_def write_ai_cost_def
        split: prod.splits sum.splits dest: no_raise c)
qed

lemma comment_entries_extends:
  "comment_entries rp i fs acc = Inr s \<Longrightarrow> \<exists>t. s = acc @ t"
proof (induction fs arbitrary: i acc)
  case Nil
  then show ?case by simp
next
  case (Cons f fs)
  from Cons.prems obtain entry where "comment_entry rp i f = Inr entry"
    and "comment_entries rp (Suc i) fs (acc @ entry) = Inr s"
    by (cases "comment_entry rp i f") auto
  with Cons.IH show ?case by fastforce
qed

lemma add_comment_section_acts:
  assumes "fs \<noteq> []"
  shows "add_comment_section rp fs w \<noteq> (Inr (), w)"
proof (cases "comment_entries rp 1 fs responses_heading")
  case (Inl e)
  with assms show ?thesis by (simp add: add_comment_section_def)
next
  case (Inr s)
  from comment_entries_extends [OF Inr] obtain t where s: "s = responses_heading @ t" by blast
  have "report (append_report s w) \<noteq> report w"
    by (cases "report w") (simp_all add: append_report_def s responses_heading_def)
  then have "append_report s w \<noteq> w" by auto
  with assms Inr show ?thesis by (simp add: add_comment_section_def)
qed

text \<open>
  C10. The check returns a list of length one, so a list of findings that the gathering
  step returns is never empty; on it \<^verbatim>\<open>estimate_effort\<close> and \<^verbatim>\<open>generate_auto_fix\<close> post
  their request and \<^verbatim>\<open>add_comment_section\<close> does not take its silent return: the branches
  for an empty list are not taken. Accordingly every run of \<^verbatim>\<open>main\<close> that completes has
  posted all five requests.
\<close>

theorem findings_never_empty:
  "length (check_architecture_structure ex) = 1
   \<and> (\<forall>fs. gather_findings all_ruff all_bandit ex = Inr fs \<longrightarrow>
        fs \<noteq> []
        \<and> sent (snd (estimate_effort fs r w)) = sent w @ [Effort]
        \<and> sent (snd (generate_auto_fix fs r w)) = sent w @ [Auto_fix]
        \<and> add_comment_section rp fs w \<noteq> (Inr (), w))
   \<and> (\<forall>w'. main e mode file_target w = (Completed, w') \<longrightarrow>
        sent w' = sent w @ [Review, Auto_fix, Effort, Doc_findings, Doc_updates])"
proof -
  have one: "length (check_architecture_structure ex) = 1"
    by (simp add: check_architecture_structure_single)
  have rest: "fs \<noteq> []
        \<and> sent (snd (estimate_effort fs r w)) = sent w @ [Effort]
        \<and> sent (snd (generate_auto_fix fs r w)) = sent w @ [Auto_fix]
        \<and> add_comment_section rp fs w \<noteq> (Inr (), w)"
    if g: "gather_findings all_ruff all_bandit ex = Inr fs" for fs
  proof -
    from gather_findings_split [OF g] have ne: "fs \<noteq> []"
      by (auto simp: check_architecture_structure_single)
    from ne estimate_effort_sent [OF ne] generate_auto_fix_sent [OF ne]
      add_comment_section_acts [OF ne]
    show ?thesis by simp
  qed
  from one rest main_sent show ?thesis by blast
qed

lemma main_run0: "fst (main env0 ''full'' None world0) = Completed"
  by (simp add: fixture_defs service_defs gather_defs run_defs report_defs Let_def)

theorem findings_never_empty_witness:
  "length (check_architecture_structure (path_exists env0)) = 1
   \<and> gather_findings [ruff_item0] [bandit_issue0] (path_exists env0) = Inr findings0
   \<and> findings0 \<noteq> []
   \<and> sent (snd (estimate_effort findings0 error_reply world0)) = sent world0 @ [Effort]
   \<and> sent (snd (generate_auto_fix findings0 error_reply world0)) = sent world0 @ [Auto_fix]
   \<and> add_comment_section (repr_of env0) findings0 world0 \<noteq> (Inr (), world0)
   \<and> fst (main env0 ''full'' None world0) = Completed
   \<and> sent (snd (main env0 ''full'' None world0))
       = sent world0 @ [Review, Auto_fix, Effort, Doc_findings, Doc_updates]"
proof -
  have m: "main env0 ''full'' None world0 = (Completed, snd (main env0 ''full'' None world0))"
    using main_run0 by (simp add: prod_eq_iff)
  from findings_never_empty [of "path_exists env0" "[ruff_item0]" "[bandit_issue0]"
      error_reply world0 "repr_of env0" env0 "''full''" None] gather_run0 m main_run0
  show ?thesis by blast
qed

section \<open>The order of the findings\<close>

lemma run_ruff_result: "fst (run_ruff f p w) = fst (run_ruff f p w0)"
  by (simp add: run_ruff_def run_command_def Let_def split: option.splits)

lemma run_bandit_result: "fst (run_bandit f p w) = fst (run_bandit f p w0)"
  by (simp add: run_bandit_def run_command_def Let_def split: option.splits)

lemma timed_section_result:
  "timed_section func w = (Inr (res, t), w') \<Longrightarrow> fst (func w) = Inr res \<and> w' = snd (func w)"
  by (auto simp: timed_section_def Let_def split: prod.splits sum.splits)

lemma analyze_files_step:
  assumes "analyze_files e (f # files) (ar, ab, st) w = (Inr acc', w')"
  shows "\<exists>out items bout results st1 w2.
      fst (run_ruff f (ruff_run e f) w) = Inr out \<and> py_iter out = Inr items
    \<and> fst (run_bandit f (bandit_run e f) w) = Inr bout \<and> bandit_results bout = Inr results
    \<and> analyze_files e files (ar @ items, ab @ results, st1) w2 = (Inr acc', w')"
proof -
  obtain x w1 where t1: "timed_section (run_ruff f (ruff_run e f)) w = (x, w1)"
    by (cases "timed_section (run_ruff f (ruff_run e f)) w")
  from assms t1 obtain out t where x: "x = Inr (out, t)"
    by (cases x) auto
  from assms t1 x obtain items where items: "py_iter out = Inr items"
    by (cases "py_iter out") auto
  obtain y w2 where t2: "timed_section (run_bandit f (bandit_run e f)) w1 = (y, w2)"
    by (cases "timed_section (run_bandit f (bandit_run e f)) w1")
  from assms t1 x items t2 obtain bout t' where y: "y = Inr (bout, t')"
    by (cases y) auto
  from assms t1 x items t2 y obtain results where results: "bandit_results bout = Inr results"
    by (cases "bandit_results bout") auto
  from assms t1 x items t2 y results
  have rec: "analyze_files e files
      (ar @ items, ab @ results, st @ [(''Ruff'', t), (''Bandit'', t')]) w2 = (Inr acc', w')"
    by simp
  have r: "fst (run_ruff f (ruff_run e f) w) = Inr out"
    using timed_section_result t1 x by fastforce
  have "fst (run_bandit f (bandit_run e f) w1) = Inr bout"
    using timed_section_result t2 y by fastforce
  then have b: "fst (run_bandit f (bandit_run e f) w) = Inr bout"
    using run_bandit_result [of f "bandit_run e f" w w1] by simp
  from r items b results rec show ?thesis by blast
qed

lemma analyze_files_accumulates:
  "analyze_files e files (ar, ab, st) w = (Inr (ar', ab', st'), w') \<Longrightarrow>
   \<exists>iss bss.
     list_all2 (\<lambda>f items. \<exists>out. fst (run_ruff f (ruff_run e f) w0) = Inr out
                                 \<and> py_iter out = Inr items) files iss
   \<and> list_all2 (\<lambda>f results. \<exists>out. fst (run_bandit f (bandit_run e f) w0) = Inr out
                                 \<and> bandit_results out = Inr results) files bss
   \<and> ar' = ar @ concat iss \<and> ab' = ab @ concat bss"
proof (induction files arbitrary: ar ab st w)
  case Nil
  then show ?case by simp
next
  case (Cons f files)
  from analyze_files_step [OF Cons.prems] obtain out items bout results st1 w2 where
    r: "fst (run_ruff f (ruff_run e f) w) = Inr out" and i: "py_iter out = Inr items"
    and b: "fst (run_bandit f (bandit_run e f) w) = Inr bout"
    and rs: "bandit_results bout = Inr results"
    and rec: "analyze_files e files (ar @ items, ab @ results, st1) w2 = (Inr (ar', ab', st'), w')"
    by blast
  from Cons.IH [OF rec] obtain iss bss where
    a: "list_all2 (\<lambda>f items. \<exists>out. fst (run_ruff f (ruff_run e f) w0) = Inr out
                                 \<and> py_iter out = Inr items) files iss"
    and c: "list_all2 (\<lambda>f results. \<exists>out. fst (run_bandit f (bandit_run e f) w0) = Inr out
                                 \<and> bandit_results out = Inr results) files bss"
    and d: "ar' = (ar @ items) @ concat iss" "ab' = (ab @ results) @ concat bss"
    by blast
  have r0: "fst (run_ruff f (ruff_run e f) w0) = Inr out"
    using r run_ruff_result [of f "ruff_run e f" w0 w] by simp
  have b0: "fst (run_bandit f (bandit_run e f) w0) = Inr bout"
    using b run_bandit_result [of f "bandit_run e f" w0 w] by simp
  show ?case
    using a c d r0 i b0 rs
    by (intro exI [of _ "items # iss"] exI [of _ "results # bss"]) auto
qed

lemma ruff_items_concat:
  "ruff_items (concat iss) [] = Inr rs \<Longrightarrow>
   \<exists>parts. list_all2 (\<lambda>items part. ruff_items items [] = Inr part) iss parts \<and> rs = concat parts"
proof (induction iss arbitrary: rs)
  case Nil
  then show ?case by simp
next
  case (Cons items iss)
  from Cons.prems obtain mid where mid: "ruff_items items [] = Inr mid"
    and "ruff_items (concat iss) mid = Inr rs"
    by (auto simp: ruff_items_app split: sum.splits)
  then obtain new where new: "ruff_items (concat iss) [] = Inr new" and rs: "rs = mid @ new"
    by (subst (asm) ruff_items_append) (auto split: sum.splits)
  from Cons.IH [OF new] obtain parts where
    "list_all2 (\<lambda>items part. ruff_items items [] = Inr part) iss parts" "new = concat parts"
    by blast
  with mid rs show ?case
    by (intro exI [of _ "mid # parts"]) simp
qed

lemma bandit_issues_concat:
  "bandit_issues (concat iss) [] = Inr bs \<Longrightarrow>
   \<exists>parts. list_all2 (\<lambda>items part. bandit_issues items [] = Inr part) iss parts
        \<and> bs = concat parts"
proof (induction iss arbitrary: bs)
  case Nil
  then show ?case by simp
next
  case (Cons items iss)
  from Cons.prems obtain mid where mid: "bandit_issues items [] = Inr mid"
    and "bandit_issues (concat iss) mid = Inr bs"
    by (auto simp: bandit_issues_app split: sum.splits)
  then obtain new where new: "bandit_issues (concat iss) [] = Inr new" and bs: "bs = mid @ new"
    by (subst (asm) bandit_issues_append) (auto split: sum.splits)
  from Cons.IH [OF new] obtain parts where
    "list_all2 (\<lambda>items part. bandit_issues items [] = Inr part) iss parts" "new = concat parts"
    by blast
  with mid bs show ?case
    by (intro exI [of _ "mid # parts"]) simp
qed

lemma analyze_run0:
  "analyze_files env0 [''sample/a.py'', ''sample/b.py''] ([], [], []) world0
     = (Inr ([ruff_item0, ruff_item0], [bandit_issue0, bandit_issue0],
             [(''Ruff'', 1), (''Bandit'', 1), (''Ruff'', 1), (''Bandit'', 1)]),
        world0\<lparr>now := 104,
               spawned := [(''ruff'', ''sample/a.py''), (''bandit'', ''sample/a.py''),
                           (''ruff'', ''sample/b.py''), (''bandit'', ''sample/b.py'')]\<rparr>)"
  by (simp add: ok_reply_def error_reply_def down_reply_def world0_def env0_def ruff_output0_def
      bandit_output0_def paths0_def run_defs json_loads_def py_iter_def Let_def)

text \<open>
  C2. When the loop over the selected files and the gathering step both return, the
  findings are: for each file in processing order the findings of its Ruff output, then for
  each file in processing order the findings of its Bandit output, then the architecture
  notes. Each block is what the gathering loop makes of that file's output alone, in the
  order the tool printed it; the blocks carry the tools \<^verbatim>\<open>ruff\<close>, \<^verbatim>\<open>bandit\<close> and
  \<^verbatim>\<open>architecture\<close>.
\<close>

theorem aggregation_order:
  assumes run: "analyze_files e files ([], [], []) w = (Inr (all_ruff, all_bandit, stats), w1)"
      and gather: "gather_findings all_ruff all_bandit ex = Inr fs"
  shows "\<exists>rss bss.
      list_all2 (\<lambda>f rs. \<exists>out items. fst (run_ruff f (ruff_run e f) w) = Inr out
                           \<and> py_iter out = Inr items \<and> ruff_items items [] = Inr rs) files rss
    \<and> list_all2 (\<lambda>f bs. \<exists>out items. fst (run_bandit f (bandit_run e f) w) = Inr out
                           \<and> bandit_results out = Inr items \<and> bandit_issues items [] = Inr bs) files bss
    \<and> fs = concat rss @ concat bss @ map architecture_finding (check_architecture_structure ex)
    \<and> list_all (\<lambda>x. tool x = ''ruff'') (concat rss)
    \<and> list_all (\<lambda>x. tool x = ''bandit'') (concat bss)
    \<and> list_all (\<lambda>x. tool x = ''architecture'')
         (map architecture_finding (check_architecture_structure ex))"
proof -
  from analyze_files_accumulates [OF run, of w] obtain iss jss where
    iss: "list_all2 (\<lambda>f items. \<exists>out. fst (run_ruff f (ruff_run e f) w) = Inr out
                                 \<and> py_iter out = Inr items) files iss"
    and jss: "list_all2 (\<lambda>f results. \<exists>out. fst (run_bandit f (bandit_run e f) w) = Inr out
                                 \<and> bandit_results out = Inr results) files jss"
    and all: "all_ruff = concat iss" "all_bandit = concat jss"
    by auto
  from gather_findings_split [OF gather] obtain rs bs where
    rs: "ruff_items all_ruff [] = Inr rs" and bs: "bandit_issues all_bandit [] = Inr bs"
    and fs: "fs = rs @ bs @ map architecture_finding (check_architecture_structure ex)"
    by blast
  from ruff_items_concat rs all obtain rss where
    rss: "list_all2 (\<lambda>items part. ruff_items items [] = Inr part) iss rss" "rs = concat rss"
    by blast
  from bandit_issues_concat bs all obtain bss where
    bss: "list_all2 (\<lambda>items part. bandit_issues items [] = Inr part) jss bss" "bs = concat bss"
    by blast
  have 1: "list_all2 (\<lambda>f rs. \<exists>out items. fst (run_ruff f (ruff_run e f) w) = Inr out
                           \<and> py_iter out = Inr items \<and> ruff_items items [] = Inr rs) files rss"
    using iss rss(1) by (rule list_all2_trans [rotated]) blast
  have 2: "list_all2 (\<lambda>f bs. \<exists>out items. fst (run_bandit f (bandit_run e f) w) = Inr out
                           \<and> bandit_results out = Inr items \<and> bandit_issues items [] = Inr bs) files bss"
    using jss bss(1) by (rule list_all2_trans [rotated]) blast
  have 3: "list_all (\<lambda>x. tool x = ''ruff'') (concat rss)"
    using ruff_items_tool [OF rs] rss(2) by simp
  have 4: "list_all (\<lambda>x. tool x = ''bandit'') (concat bss)"
    using bandit_issues_tool [OF bs] bss(2) by simp
  have 5: "list_all (\<lambda>x. tool x = ''architecture'')
         (map architecture_finding (check_architecture_structure ex))"
    by (simp add: check_architecture_structure_single architecture_finding_def)
  from 1 2 3 4 5 fs rss(2) bss(2) show ?thesis by blast
qed

theorem aggregation_order_witness:
  "analyze_files env0 [''sample/a.py'', ''sample/b.py''] ([], [], []) world0
     = (Inr ([ruff_item0, ruff_item0], [bandit_issue0, bandit_issue0],
             [(''Ruff'', 1), (''Bandit'', 1), (''Ruff'', 1), (''Bandit'', 1)]),
        world0\<lparr>now := 104,
               spawned := [(''ruff'', ''sample/a.py''), (''bandit'', ''sample/a.py''),
                           (''ruff'', ''sample/b.py''), (''bandit'', ''sample/b.py'')]\<rparr>)
   \<and> gather_findings [ruff_item0, ruff_item0] [bandit_issue0, bandit_issue0] (path_exists env0)
     = Inr (take 2 findings0 @ take 2 findings0 @ [findings0 ! 2, findings0 ! 2, findings0 ! 3])
   \<and> (\<exists>rss bss.
      list_all2 (\<lambda>f rs. \<exists>out items. fst (run_ruff f (ruff_run env0 f) world0) = Inr out
                           \<and> py_iter out = Inr items \<and> ruff_items items [] = Inr rs)
        [''sample/a.py'', ''sample/b.py''] rss
    \<and> list_all2 (\<lambda>f bs. \<exists>out items. fst (run_bandit f (bandit_run env0 f) world0) = Inr out
                           \<and> bandit_results out = Inr items \<and> bandit_issues items [] = Inr bs)
        [''sample/a.py'', ''sample/b.py''] bss
    \<and> take 2 findings0 @ take 2 findings0 @ [findings0 ! 2, findings0 ! 2, findings0 ! 3]
        = concat rss @ concat bss
          @ map architecture_finding (check_architecture_structure (path_exists env0))
    \<and> list_all (\<lambda>x. tool x = ''ruff'') (concat rss)
    \<and> list_all (\<lambda>x. tool x = ''bandit'') (concat bss)
    \<and> list_all (\<lambda>x. tool x = ''architecture'')
         (map architecture_finding (check_architecture_structure (path_exists env0))))"
  using aggregation_order [OF analyze_run0 gather_run1] analyze_run0 gather_run1
  by blast

section \<open>The developer-response section\<close>






section \<open>A missing target file\<close>

text \<open>
  The claim C4 as stated fails for the empty target that \<^verbatim>\<open>--file=\<close> gives: the path
  does not exist, the single-file branch is skipped, and the run analyses the whole
  sample tree, posts its five requests and writes the report.
\<close>

theorem empty_target_counterexample:
  "parse_args [''--file=''] (''full'', None) = (''file'', Some [])
   \<and> \<not> path_exists env0 []
   \<and> fst (script env0 [''--file=''] world0) = Completed
   \<and> sent (snd (script env0 [''--file=''] world0))
       = [Review, Auto_fix, Effort, Doc_findings, Doc_updates]
   \<and> spawned (snd (script env0 [''--file=''] world0))
       = [(''ruff'', ''sample/a.py''), (''bandit'', ''sample/a.py'')]
   \<and> report (snd (script env0 [''--file=''] world0)) \<noteq> None"
  by (simp add: fixture_defs service_defs gather_defs run_defs report_defs Let_def)

text \<open>
  C4, amended. In single-file mode with a non-empty target that does not exist,
  \<^verbatim>\<open>main\<close> returns at once (it reports the missing file and raises nothing): the state
  is the one it was given, so no analyzer was started, no request was posted and the
  report is untouched.
\<close>

theorem missing_target_aborts:
  assumes "mode = ''file'' \<or> mode = ''file_specific''"
      and "t \<noteq> []"
      and "\<not> path_exists e t"
  shows "main e mode (Some t) w = (File_not_found, w)"
  using assms by (auto simp: main_def select_files_def single_file_target_def)

theorem missing_target_aborts_witness:
  "(''file'' = ''file'' \<or> ''file'' = ''file_specific'')
   \<and> ''missing.py'' \<noteq> []
   \<and> \<not> path_exists env0 ''missing.py''
   \<and> main env0 ''file'' (Some ''missing.py'') world0 = (File_not_found, world0)"
proof -
  have a: "''file'' = ''file'' \<or> ''file'' = ''file_specific''" by simp
  have b: "''missing.py'' \<noteq> []" by simp
  have c: "\<not> path_exists env0 ''missing.py''" by (simp add: env0_def paths0_def)
  from missing_target_aborts [OF a b c, of world0] a b c show ?thesis by simp
qed

end
